theory Spec2Isabelle
  imports Main "HOL-Library.Word"
begin

section \<open>JavaScript strings\<close>

text \<open>
  A JavaScript string is a sequence of UTF-16 code units. The character class \<open>\s\<close> of a
  regular expression contains code units above 255, so a code unit is a 16-bit word and
  not a \<open>char\<close>. \<open>js\<close> embeds an ASCII literal.
\<close>

type_synonym jschar = "16 word"
type_synonym jsstring = "jschar list"

definition js :: "string \<Rightarrow> jsstring" where
  "js s = map of_char s"

definition minus_sign :: jschar where
  "minus_sign = 0x2D"

definition slash :: jschar where
  "slash = 0x2F"

definition space :: jschar where
  "space = 0x20"

text \<open>
  The class \<open>\s\<close> (ECMAScript WhiteSpace and LineTerminator): tab, line feed, vertical tab,
  form feed, carriage return, space, no-break space, U+1680, U+2000 to U+200A, U+2028,
  U+2029, U+202F, U+205F, U+3000 and U+FEFF.
\<close>

definition is_space :: "jschar \<Rightarrow> bool" where
  "is_space c \<longleftrightarrow>
     c = 0x09 \<or> c = 0x0A \<or> c = 0x0B \<or> c = 0x0C \<or> c = 0x0D \<or> c = 0x20 \<or> c = 0xA0 \<or>
     c = 0x1680 \<or> (0x2000 \<le> c \<and> c \<le> 0x200A) \<or> c = 0x2028 \<or> c = 0x2029 \<or>
     c = 0x202F \<or> c = 0x205F \<or> c = 0x3000 \<or> c = 0xFEFF"

section \<open>Regular expressions\<close>

text \<open>
  The fragment of regular expressions the directive uses: a character class, sequence,
  alternative and the greedy star; \<open>x?\<close> is \<open>x\<close> or nothing. \<open>NoMatch\<close> is the expression
  that matches no string; it only arises as a derivative.
\<close>

datatype 'a regex =
    NoMatch
  | Empty
  | Class "'a \<Rightarrow> bool"
  | Seq "'a regex" "'a regex"
  | Alt "'a regex" "'a regex"
  | Star "'a regex"

definition Opt :: "'a regex \<Rightarrow> 'a regex" where
  "Opt r = Alt r Empty"

text \<open>The strings an expression matches in full.\<close>

definition seq_lang :: "'a list set \<Rightarrow> 'a list set \<Rightarrow> 'a list set" where
  "seq_lang A B = {w. \<exists>u v. w = u @ v \<and> u \<in> A \<and> v \<in> B}"

inductive_set star_lang :: "'a list set \<Rightarrow> 'a list set" for A :: "'a list set" where
  star_nil: "[] \<in> star_lang A"
| star_more: "u \<in> A \<Longrightarrow> v \<in> star_lang A \<Longrightarrow> u @ v \<in> star_lang A"

fun lang :: "'a regex \<Rightarrow> 'a list set" where
  "lang NoMatch = {}"
| "lang Empty = {[]}"
| "lang (Class p) = {[c] | c. p c}"
| "lang (Seq r s) = seq_lang (lang r) (lang s)"
| "lang (Alt r s) = lang r \<union> lang s"
| "lang (Star r) = star_lang (lang r)"

text \<open>The matcher: the derivative of the expression by each code unit in turn.\<close>

fun nullable :: "'a regex \<Rightarrow> bool" where
  "nullable NoMatch = False"
| "nullable Empty = True"
| "nullable (Class p) = False"
| "nullable (Seq r s) = (nullable r \<and> nullable s)"
| "nullable (Alt r s) = (nullable r \<or> nullable s)"
| "nullable (Star r) = True"

fun deriv :: "'a \<Rightarrow> 'a regex \<Rightarrow> 'a regex" where
  "deriv c NoMatch = NoMatch"
| "deriv c Empty = NoMatch"
| "deriv c (Class p) = (if p c then Empty else NoMatch)"
| "deriv c (Seq r s) =
     (if nullable r then Alt (Seq (deriv c r) s) (deriv c s) else Seq (deriv c r) s)"
| "deriv c (Alt r s) = Alt (deriv c r) (deriv c s)"
| "deriv c (Star r) = Seq (deriv c r) (Star r)"

fun matches :: "'a regex \<Rightarrow> 'a list \<Rightarrow> bool" where
  "matches r [] = nullable r"
| "matches r (c # w) = matches (deriv c r) w"

text \<open>
  \<open>RegExp.prototype.test\<close> on an expression written \<open>/^r$/\<close> with no flags: \<open>^\<close> and \<open>$\<close>
  hold at the two ends of the input only, so the test is a match of the whole string.
\<close>

definition regex_test :: "'a regex \<Rightarrow> 'a list \<Rightarrow> bool" where
  "regex_test r s = matches r s"

section \<open>Fractions\<close>

text \<open>
  Modelled from the spec: the Fraction objects of \<open>FractionObjectFactory\<close>, whose source is
  not among the files; the four fields of section 3. JavaScript numbers carry no type, so
  the three numeric fields are integers and their signs are a matter of proof.
\<close>

record fraction =
  isNegative :: bool
  wholeNumber :: int
  numerator :: int
  denominator :: int

text \<open>
  Modelled from the spec: the record handed to \<open>fromStructured\<close> (\<open>fromDict\<close> in the
  directive); each of its fields may be absent.
\<close>

record fraction_dict =
  dict_isNegative :: "bool option"
  dict_wholeNumber :: "int option"
  dict_numerator :: "int option"
  dict_denominator :: "int option"

text \<open>An Error object; the directive reads its \<open>message\<close>.\<close>

datatype js_error = Error (message: jsstring)

text \<open>
  A thrown value. JavaScript throws any value, and the \<open>catch\<close> block of the directive
  reads the property \<open>message\<close> of what it caught. That read tells three kinds apart:
  \<open>null\<close> and \<open>undefined\<close>, of which no property can be read, and an Error object,
  whose message is a string. The factory reports every failure as an error that carries
  a message; values of other kinds (a string, an object with no message) raise nothing
  when the property is read and are left out.
\<close>

datatype js_thrown = ThrownNull | ThrownUndefined | ThrownError js_error

text \<open>
  The TypeError the engine raises when a property of \<open>null\<close> or \<open>undefined\<close> is read. The
  wording of its message is the engine's own; V8's is taken.
\<close>

definition cannot_read :: "jsstring \<Rightarrow> js_thrown" where
  "cannot_read what =
     ThrownError (Error (js ''Cannot read properties of '' @ what @ js '' (reading '' @
       [0x27] @ js ''message'' @ [0x27] @ js '')''))"

text \<open>The property read \<open>parsingError.message\<close> (line 52): a string, or a TypeError thrown.\<close>

definition read_message :: "js_thrown \<Rightarrow> js_thrown + jsstring" where
  "read_message parsingError =
     (case parsingError of
        ThrownNull \<Rightarrow> Inl (cannot_read (js ''null''))
      | ThrownUndefined \<Rightarrow> Inl (cannot_read (js ''undefined''))
      | ThrownError e \<Rightarrow> Inr (message e))"

text \<open>
  The injected service \<open>FractionObjectFactory\<close>, as far as the directive uses it:
  \<open>fromDict\<close>, \<open>fromRawInputString\<close> (which returns a Fraction or throws) and the
  \<open>toString\<close> method of the Fraction it returns.
\<close>

record factory =
  fromDict :: "fraction_dict \<Rightarrow> fraction"
  fromRawInputString :: "jsstring \<Rightarrow> js_thrown + fraction"
  toString :: "fraction \<Rightarrow> jsstring"

section \<open>The fraction editor directive\<close>

text \<open>
  \<open>ctrl.value\<close> is bound to the parent scope: it holds \<open>null\<close>, the plain object the
  parent supplied, or the Fraction of the last successful parse.
\<close>

datatype bound_value = Null | Dict fraction_dict | Frac fraction

datatype factory_call = FromDict fraction_dict | FromRawInputString jsstring

text \<open>
  The state of one controller: \<open>ctrl.value\<close>, \<open>ctrl.localValue.label\<close> and the closure
  variable \<open>errorMessage\<close>. \<open>factory_calls\<close> is not a variable of the source: it records
  the calls made to \<open>FractionObjectFactory\<close>, oldest first, so that "is invoked" can be
  stated.
\<close>

record ctrl =
  ctrl_value :: bound_value
  localValue_label :: jsstring
  errorMessage :: jsstring
  factory_calls :: "factory_call list"

text \<open>
  A statement completes normally (\<open>Inr\<close>) or throws (\<open>Inl\<close>); either way it leaves a
  state behind. \<open>and_then\<close> sequences two statements: the second runs only when the
  first completes normally.
\<close>

type_synonym 'a completion = "(js_thrown + 'a) \<times> ctrl"

definition and_then :: "'a completion \<Rightarrow> ('a \<Rightarrow> ctrl \<Rightarrow> 'b completion) \<Rightarrow> 'b completion" where
  "and_then r k = (case r of (Inl e, c) \<Rightarrow> (Inl e, c) | (Inr x, c) \<Rightarrow> k x c)"

definition call_fromDict :: "factory \<Rightarrow> fraction_dict \<Rightarrow> ctrl \<Rightarrow> fraction \<times> ctrl" where
  "call_fromDict F d c = (fromDict F d, c\<lparr>factory_calls := factory_calls c @ [FromDict d]\<rparr>)"

definition call_fromRawInputString :: "factory \<Rightarrow> jsstring \<Rightarrow> ctrl \<Rightarrow> fraction completion" where
  "call_fromRawInputString F s c =
     (fromRawInputString F s, c\<lparr>factory_calls := factory_calls c @ [FromRawInputString s]\<rparr>)"

text \<open>
  The controller's constructor (lines 33 to 42): \<open>errorMessage = ''\<close>,
  \<open>fractionString = '0'\<close>, and for a value other than \<open>null\<close> the string of
  \<open>fromDict(ctrl.value)\<close>. The argument is the value the parent scope has bound:
  \<open>None\<close> is \<open>null\<close>.
\<close>

definition controller :: "factory \<Rightarrow> fraction_dict option \<Rightarrow> ctrl" where
  "controller F v =
     (let c0 = \<lparr>ctrl_value = (case v of None \<Rightarrow> Null | Some d \<Rightarrow> Dict d),
                localValue_label = [], errorMessage = [], factory_calls = []\<rparr>;
          fractionString = js ''0''
      in case v of
           None \<Rightarrow> c0\<lparr>localValue_label := fractionString\<rparr>
         | Some d \<Rightarrow>
             (let (defaultFraction, c1) = call_fromDict F d c0
              in c1\<lparr>localValue_label := toString F defaultFraction\<rparr>))"

text \<open>
  \<open>var INTERMEDIATE_REGEX = /^\s*-?\s*$/\<close>. The anchors are in \<open>regex_test\<close>; what is
  left is \<open>\s*\<close>, then \<open>-?\<close>, then \<open>\s*\<close>.
\<close>

definition INTERMEDIATE_REGEX :: "jschar regex" where
  "INTERMEDIATE_REGEX =
     Seq (Star (Class is_space))
       (Seq (Opt (Class (\<lambda>c. c = minus_sign))) (Star (Class is_space)))"

text \<open>The body of the \<open>try\<close> block (lines 46 to 50).\<close>

definition watch_try :: "factory \<Rightarrow> jsstring \<Rightarrow> ctrl \<Rightarrow> unit completion" where
  "watch_try F newValue c =
     and_then
       (if \<not> regex_test INTERMEDIATE_REGEX newValue
        then and_then (call_fromRawInputString F newValue c)
               (\<lambda>parsed c1. (Inr (), c1\<lparr>ctrl_value := Frac parsed\<rparr>))
        else (Inr (), c))
       (\<lambda>_ c2. (Inr (), c2\<lparr>errorMessage := []\<rparr>))"

text \<open>
  The \<open>$watch\<close> listener (lines 44 to 54): the \<open>try\<close> block and its \<open>catch\<close>. The
  \<open>catch\<close> block is not itself guarded: when the read of \<open>parsingError.message\<close> throws,
  the assignment does not happen and the listener throws.
\<close>

definition watch_callback :: "factory \<Rightarrow> jsstring \<Rightarrow> ctrl \<Rightarrow> unit completion" where
  "watch_callback F newValue c =
     (case watch_try F newValue c of
        (Inl parsingError, c') \<Rightarrow>
          and_then (read_message parsingError, c')
            (\<lambda>text c''. (Inr (), c''\<lparr>errorMessage := text\<rparr>))
      | (Inr u, c') \<Rightarrow> (Inr u, c'))"

text \<open>\<open>ctrl.getWarningText\<close> (lines 56 to 58).\<close>

definition getWarningText :: "ctrl \<Rightarrow> jsstring" where
  "getWarningText c = errorMessage c"

text \<open>
  The spec's words for intermediate input: optional whitespace, an optional single
  \<open>-\<close>, optional whitespace. Read from the left: skip the leading whitespace, skip one
  \<open>-\<close> if it is there, and require that only whitespace is left.
\<close>

definition intermediate_input :: "jsstring \<Rightarrow> bool" where
  "intermediate_input s =
     (let r = dropWhile is_space s;
          r' = (case r of [] \<Rightarrow> [] | c # t \<Rightarrow> if c = minus_sign then t else r)
      in list_all is_space r')"

section \<open>The fraction value object\<close>

text \<open>
  Modelled from the spec: the source of \<open>FractionObjectFactory\<close> is not among the files.
  The three kinds of parse error of sections 4.1 and 7.
\<close>

datatype parse_error = InvalidFormat | InvalidDenominator | NumberTooLarge

text \<open>
  Modelled from the spec: the message an error carries. The spec requires a
  human-readable message that distinguishes the three kinds and gives no text; the name
  of the kind stands for it.
\<close>

fun error_message :: "parse_error \<Rightarrow> jsstring" where
  "error_message InvalidFormat = js ''InvalidFormat''"
| "error_message InvalidDenominator = js ''InvalidDenominator''"
| "error_message NumberTooLarge = js ''NumberTooLarge''"

text \<open>
  Modelled from the spec: \<open>fromStructured\<close> (\<open>fromDict\<close> in the directive), section 4.1.
  Absent fields take the defaults false, 0, 0 and 1; nothing is validated.
\<close>

definition fromStructured :: "fraction_dict \<Rightarrow> fraction" where
  "fromStructured d =
     \<lparr>isNegative = (case dict_isNegative d of None \<Rightarrow> False | Some b \<Rightarrow> b),
      wholeNumber = (case dict_wholeNumber d of None \<Rightarrow> 0 | Some w \<Rightarrow> w),
      numerator = (case dict_numerator d of None \<Rightarrow> 0 | Some n \<Rightarrow> n),
      denominator = (case dict_denominator d of None \<Rightarrow> 1 | Some k \<Rightarrow> k)\<rparr>"

text \<open>Modelled from the spec: a digit of a \<open>digits\<close> group, \<open>[0-9]\<close>.\<close>

definition is_digit :: "jschar \<Rightarrow> bool" where
  "is_digit c \<longleftrightarrow> 0x30 \<le> c \<and> c \<le> 0x39"

text \<open>Modelled from the spec: the character of a decimal digit, for rendering.\<close>

definition digit_char :: "nat \<Rightarrow> jschar" where
  "digit_char d = of_nat (48 + d)"

text \<open>Modelled from the spec: the value of a digit character, for reading.\<close>

definition digit_value :: "jschar \<Rightarrow> int" where
  "digit_value c = uint c - 48"

text \<open>
  Modelled from the spec: the decimal rendering of a natural number, most significant
  digit first and with no leading zero.
\<close>

fun digits :: "nat \<Rightarrow> jsstring" where
  "digits n = (if n < 10 then [digit_char n] else digits (n div 10) @ [digit_char (n mod 10)])"

declare digits.simps [simp del]

text \<open>
  Modelled from the spec: the rendering of an integer field; JavaScript writes a negative
  number with a leading \<open>-\<close>.
\<close>

definition show_int :: "int \<Rightarrow> jsstring" where
  "show_int i = (if i < 0 then minus_sign # digits (nat (- i)) else digits (nat i))"

text \<open>Modelled from the spec: the integer a \<open>digits\<close> group denotes.\<close>

definition digits_value :: "jsstring \<Rightarrow> int" where
  "digits_value ds = foldl (\<lambda>a c. 10 * a + digit_value c) 0 ds"

text \<open>Modelled from the spec: the optional \<open>-\<close> in front of a rendered fraction.\<close>

definition sign_prefix :: "fraction \<Rightarrow> jsstring" where
  "sign_prefix f = (if isNegative f then [minus_sign] else [])"

text \<open>
  Modelled from the spec: \<open>toString\<close>, section 4.1. A zero numerator renders the whole
  number alone, with the sign only when the whole number is not zero; a zero whole
  number renders the simple fraction; otherwise the mixed form, with one space.
\<close>

definition fraction_toString :: "fraction \<Rightarrow> jsstring" where
  "fraction_toString f =
     (if numerator f = 0 then
        (if isNegative f \<and> wholeNumber f \<noteq> 0 then minus_sign # show_int (wholeNumber f)
         else show_int (wholeNumber f))
      else if wholeNumber f = 0 then
        sign_prefix f @ show_int (numerator f) @ [slash] @ show_int (denominator f)
      else
        sign_prefix f @ show_int (wholeNumber f) @ [space] @ show_int (numerator f) @
          [slash] @ show_int (denominator f))"

text \<open>Modelled from the spec: leading and trailing whitespace is trimmed.\<close>

definition trim :: "jsstring \<Rightarrow> jsstring" where
  "trim s = rev (dropWhile is_space (rev (dropWhile is_space s)))"

text \<open>
  Modelled from the spec: the three forms after the sign, section 4.1. The result is the
  whole number, the numerator and the denominator read, or \<open>None\<close> when the string has
  none of the forms \<open>digits\<close>, \<open>digits "/" digits\<close> and
  \<open>digits spaces digits "/" digits\<close>. No whitespace is allowed around the \<open>/\<close>, and
  the separator of the mixed form is one or more ordinary spaces.
\<close>

definition parse_body :: "jsstring \<Rightarrow> (int \<times> int \<times> int) option" where
  "parse_body s =
     (let d1 = takeWhile is_digit s; r1 = dropWhile is_digit s in
      if d1 = [] then None
      else case r1 of
        [] \<Rightarrow> Some (digits_value d1, 0, 1)
      | c # r2 \<Rightarrow>
          if c = slash then
            (if r2 \<noteq> [] \<and> list_all is_digit r2
             then Some (0, digits_value d1, digits_value r2) else None)
          else if c = space then
            (let r3 = dropWhile (\<lambda>x. x = space) r2;
                 d2 = takeWhile is_digit r3;
                 r4 = dropWhile is_digit r3
             in if d2 = [] then None
                else case r4 of
                  [] \<Rightarrow> None
                | c' # d3 \<Rightarrow>
                    if c' = slash \<and> d3 \<noteq> [] \<and> list_all is_digit d3
                    then Some (digits_value d1, digits_value d2, digits_value d3)
                    else None)
          else None)"

text \<open>
  Modelled from the spec: \<open>parse\<close> (\<open>fromRawInputString\<close> in the directive), section 4.1.
  The spec leaves the safe-range boundary to the implementation, so it is the parameter
  \<open>safe_max\<close>. The checks come in the spec's order: the form, then the denominator, then
  the magnitude of every integer read.
\<close>

definition parse :: "int \<Rightarrow> jsstring \<Rightarrow> parse_error + fraction" where
  "parse safe_max raw =
     (let t = trim raw;
          (neg, body) = (case t of [] \<Rightarrow> (False, [])
                         | c # rest \<Rightarrow> if c = minus_sign then (True, rest) else (False, t))
      in case parse_body body of
           None \<Rightarrow> Inl InvalidFormat
         | Some (w, n, d) \<Rightarrow>
             if d = 0 then Inl InvalidDenominator
             else if safe_max < w \<or> safe_max < n \<or> safe_max < d then Inl NumberTooLarge
             else Inr \<lparr>isNegative = neg, wholeNumber = w, numerator = n, denominator = d\<rparr>)"

text \<open>
  Modelled from the spec: the boundary the spec gives as an example, the largest integer
  of the 53-bit safe range.
\<close>

definition MAX_SAFE_INTEGER :: int where
  "MAX_SAFE_INTEGER = 2 ^ 53 - 1"

text \<open>
  Modelled from the spec: the service the directive is given, made of the three
  operations above; a parse error is thrown as an exception carrying its message.
\<close>

definition spec_factory :: "int \<Rightarrow> factory" where
  "spec_factory safe_max =
     \<lparr>fromDict = fromStructured,
      fromRawInputString =
        (\<lambda>s. case parse safe_max s of
               Inl k \<Rightarrow> Inl (ThrownError (Error (error_message k)))
             | Inr f \<Rightarrow> Inr f),
      toString = fraction_toString\<rparr>"


text \<open>
  Modelled from the spec: the invariants of a Fraction, section 3. The whole number and
  the numerator are not negative, and the denominator is strictly positive.
\<close>

definition valid_fraction :: "fraction \<Rightarrow> bool" where
  "valid_fraction f \<longleftrightarrow> 0 \<le> wholeNumber f \<and> 0 \<le> numerator f \<and> 0 < denominator f"

text \<open>
  What \<open>ctrl.value\<close> holds represents no zero or missing denominator: it is \<open>null\<close>, which
  is no fraction at all, or a plain object or a Fraction whose denominator is there and
  is strictly positive.
\<close>

definition positive_denominator :: "bound_value \<Rightarrow> bool" where
  "positive_denominator v =
     (case v of
        Null \<Rightarrow> True
      | Dict d \<Rightarrow> (case dict_denominator d of None \<Rightarrow> False | Some k \<Rightarrow> 0 < k)
      | Frac f \<Rightarrow> 0 < denominator f)"

section \<open>The matcher and the intermediate pattern\<close>

lemma nullable_lang: "nullable r \<longleftrightarrow> [] \<in> lang r"
  by (induction r) (auto simp: seq_lang_def intro: star_lang.star_nil)

lemma star_lang_cons:
  "c # w \<in> star_lang A \<longleftrightarrow> (\<exists>u v. w = u @ v \<and> c # u \<in> A \<and> v \<in> star_lang A)"
proof
  assume "c # w \<in> star_lang A"
  then show "\<exists>u v. w = u @ v \<and> c # u \<in> A \<and> v \<in> star_lang A"
  proof (induction "c # w" arbitrary: w rule: star_lang.induct)
    case (star_more u v)
    show ?case
    proof (cases u)
      case Nil
      with star_more show ?thesis by simp
    next
      case (Cons a u')
      with star_more.hyps star_more.prems show ?thesis by auto
    qed
  qed
next
  assume "\<exists>u v. w = u @ v \<and> c # u \<in> A \<and> v \<in> star_lang A"
  then obtain u v where "w = u @ v" "c # u \<in> A" "v \<in> star_lang A" by blast
  then have "(c # u) @ v \<in> star_lang A" by (intro star_lang.star_more)
  with \<open>w = u @ v\<close> show "c # w \<in> star_lang A" by simp
qed

lemma seq_lang_cons:
  "c # w \<in> seq_lang A B \<longleftrightarrow>
     (\<exists>u v. w = u @ v \<and> c # u \<in> A \<and> v \<in> B) \<or> ([] \<in> A \<and> c # w \<in> B)"
  by (auto simp: seq_lang_def Cons_eq_append_conv) 

lemma deriv_lang: "w \<in> lang (deriv c r) \<longleftrightarrow> c # w \<in> lang r"
proof (induction r arbitrary: w)
  case (Seq r s)
  then show ?case
    by (auto simp: seq_lang_cons nullable_lang) (auto simp: seq_lang_def)
next
  case (Star r)
  then show ?case
    by (auto simp: star_lang_cons) (auto simp: seq_lang_def)
qed auto

lemma matches_lang: "matches r w \<longleftrightarrow> w \<in> lang r"
  by (induction w arbitrary: r) (simp_all add: nullable_lang deriv_lang)


lemma star_class: "w \<in> star_lang {[c] | c. p c} \<longleftrightarrow> list_all p w"
proof
  assume "w \<in> star_lang {[c] | c. p c}"
  then show "list_all p w"
    by (induction rule: star_lang.induct) auto
next
  assume "list_all p w"
  then show "w \<in> star_lang {[c] | c. p c}"
  proof (induction w)
    case Nil
    show ?case by (rule star_lang.star_nil)
  next
    case (Cons c w)
    then have "[c] @ w \<in> star_lang {[c] | c. p c}"
      by (intro star_lang.star_more) auto
    then show ?case by simp
  qed
qed

lemma lang_INTERMEDIATE_REGEX:
  "s \<in> lang INTERMEDIATE_REGEX \<longleftrightarrow>
     (\<exists>a m b. s = a @ m @ b \<and> list_all is_space a \<and> (m = [] \<or> m = [minus_sign]) \<and>
        list_all is_space b)"
  by (auto simp: INTERMEDIATE_REGEX_def Opt_def seq_lang_def star_class)

lemma not_space_minus: "\<not> is_space minus_sign"
  by (simp add: is_space_def minus_sign_def)

lemma dropWhile_spaces: "list_all is_space a \<Longrightarrow> dropWhile is_space (a @ w) = dropWhile is_space w"
  by (induction a) auto

lemma dropWhile_all: "list_all p b \<Longrightarrow> dropWhile p b = []"
  by (induction b) auto

lemma intermediate_input_iff:
  "intermediate_input s \<longleftrightarrow>
     (\<exists>a m b. s = a @ m @ b \<and> list_all is_space a \<and> (m = [] \<or> m = [minus_sign]) \<and>
        list_all is_space b)"
proof
  assume h: "intermediate_input s"
  define a where "a = takeWhile is_space s"
  define r where "r = dropWhile is_space s"
  have s: "s = a @ r" and a: "list_all is_space a"
    by (simp_all add: a_def r_def list_all_iff) (meson set_takeWhileD)
  show "\<exists>a m b. s = a @ m @ b \<and> list_all is_space a \<and> (m = [] \<or> m = [minus_sign]) \<and>
        list_all is_space b"
  proof (cases r)
    case Nil
    with s a show ?thesis by (intro exI [of _ a] exI [of _ "[]"]) simp
  next
    case (Cons c t)
    have nc: "\<not> is_space c"
      using Cons hd_dropWhile [of is_space s] by (simp add: r_def)
    from h Cons have "c = minus_sign \<and> list_all is_space t"
      using nc by (auto simp: intermediate_input_def r_def [symmetric] split: if_splits)
    with s a Cons show ?thesis
      by (intro exI [of _ a] exI [of _ "[minus_sign]"] exI [of _ t]) simp
  qed
next
  assume "\<exists>a m b. s = a @ m @ b \<and> list_all is_space a \<and> (m = [] \<or> m = [minus_sign]) \<and>
        list_all is_space b"
  then obtain a m b where s: "s = a @ m @ b" and a: "list_all is_space a"
    and m: "m = [] \<or> m = [minus_sign]" and b: "list_all is_space b" by blast
  from m show "intermediate_input s"
  proof
    assume "m = []"
    with s a b show ?thesis
      by (simp add: intermediate_input_def dropWhile_spaces dropWhile_all)
  next
    assume "m = [minus_sign]"
    with s a b show ?thesis
      by (simp add: intermediate_input_def dropWhile_spaces not_space_minus)
  qed
qed

lemma regex_test_INTERMEDIATE_REGEX:
  "regex_test INTERMEDIATE_REGEX s = intermediate_input s"
  by (simp add: regex_test_def matches_lang lang_INTERMEDIATE_REGEX intermediate_input_iff)

section \<open>Rendering and reading integers\<close>

lemma digits_small: "n < 10 \<Longrightarrow> digits n = [digit_char n]"
  by (simp add: digits.simps)

lemma digits_large: "10 \<le> n \<Longrightarrow> digits n = digits (n div 10) @ [digit_char (n mod 10)]"
  by (subst digits.simps) simp

lemma unat_digit_char:
  assumes "d < 10"
  shows "unat (digit_char d) = 48 + d"
proof -
  have "unat (digit_char d) = (48 + d) mod 2 ^ LENGTH(16)"
    unfolding digit_char_def by (rule unat_of_nat)
  with assms show ?thesis by simp
qed

lemma is_digit_digit_char: "d < 10 \<Longrightarrow> is_digit (digit_char d)"
  by (simp add: is_digit_def word_le_nat_alt unat_digit_char)

lemma digit_value_digit_char: "d < 10 \<Longrightarrow> digit_value (digit_char d) = int d"
  by (simp add: digit_value_def uint_nat unat_digit_char)

lemma digit_value_nonneg: "is_digit c \<Longrightarrow> 0 \<le> digit_value c"
  by (simp add: is_digit_def digit_value_def word_le_def)

lemma digits_nonempty: "digits n \<noteq> []"
  by (subst digits.simps) simp

lemma digits_all_digit: "list_all is_digit (digits n)"
proof (induction n rule: digits.induct)
  case (1 n)
  show ?case
  proof (cases "n < 10")
    case True
    then show ?thesis by (simp add: digits_small is_digit_digit_char)
  next
    case False
    with 1 show ?thesis by (simp add: digits_large is_digit_digit_char)
  qed
qed

lemma digits_value_snoc: "digits_value (ds @ [c]) = 10 * digits_value ds + digit_value c"
  by (simp add: digits_value_def)

lemma digits_value_digits: "digits_value (digits n) = int n"
proof (induction n rule: digits.induct)
  case (1 n)
  show ?case
  proof (cases "n < 10")
    case True
    then show ?thesis by (simp add: digits_small digits_value_def digit_value_digit_char)
  next
    case False
    then have "digits_value (digits n) = 10 * int (n div 10) + int (n mod 10)"
      using 1 by (simp add: digits_large digits_value_snoc digit_value_digit_char)
    also have "\<dots> = int (10 * (n div 10) + n mod 10)"
      by (simp only: of_nat_add of_nat_mult of_nat_numeral)
    also have "\<dots> = int n" by simp
    finally show ?thesis .
  qed
qed

lemma digits_value_nonneg: "list_all is_digit ds \<Longrightarrow> 0 \<le> digits_value ds"
proof (induction ds rule: rev_induct)
  case Nil
  show ?case by (simp add: digits_value_def)
next
  case (snoc c ds)
  then show ?case by (simp add: digits_value_snoc digit_value_nonneg)
qed

lemma not_digit_chars: "\<not> is_digit slash" "\<not> is_digit space" "\<not> is_digit minus_sign"
  by (simp_all add: is_digit_def slash_def space_def minus_sign_def)

lemma digit_not_space: "is_digit c \<Longrightarrow> \<not> is_space c"
  by (auto simp: is_digit_def is_space_def word_le_nat_alt)


lemma takeWhile_digits_stop:
  "list_all is_digit ds \<Longrightarrow> \<not> is_digit c \<Longrightarrow> takeWhile is_digit (ds @ c # r) = ds"
  by (induction ds) auto

lemma dropWhile_digits_stop:
  "list_all is_digit ds \<Longrightarrow> \<not> is_digit c \<Longrightarrow> dropWhile is_digit (ds @ c # r) = c # r"
  by (induction ds) auto

lemma takeWhile_digits_all: "list_all is_digit ds \<Longrightarrow> takeWhile is_digit ds = ds"
  by (induction ds) auto

lemma dropWhile_digits_all: "list_all is_digit ds \<Longrightarrow> dropWhile is_digit ds = []"
  by (induction ds) auto

lemma digits_Cons: "\<exists>x xs. digits n = x # xs \<and> is_digit x"
  using digits_nonempty [of n] digits_all_digit [of n] by (cases "digits n") auto

lemma dropWhile_space_digits: "dropWhile (\<lambda>x. x = space) (digits n @ r) = digits n @ r"
proof -
  obtain x xs where "digits n = x # xs" "is_digit x" using digits_Cons by blast
  moreover from this have "x \<noteq> space" using not_digit_chars(2) by auto
  ultimately show ?thesis by simp
qed

lemma parse_body_integer: "parse_body (digits w) = Some (int w, 0, 1)"
  by (simp add: parse_body_def takeWhile_digits_all dropWhile_digits_all digits_all_digit
      digits_nonempty digits_value_digits)

lemma parse_body_simple:
  "parse_body (digits n @ slash # digits d) = Some (0, int n, int d)"
  by (simp add: parse_body_def takeWhile_digits_stop dropWhile_digits_stop digits_all_digit
      digits_nonempty digits_value_digits not_digit_chars)

lemma slash_not_space: "slash \<noteq> space" "space \<noteq> slash"
  by (simp_all add: slash_def space_def)

lemma parse_body_mixed:
  "parse_body (digits w @ space # digits n @ slash # digits d) = Some (int w, int n, int d)"
  by (simp add: parse_body_def takeWhile_digits_stop dropWhile_digits_stop digits_all_digit
      digits_nonempty digits_value_digits not_digit_chars slash_not_space
      dropWhile_space_digits)

lemma trim_id:
  assumes "s \<noteq> []" and "\<not> is_space (hd s)" and "\<not> is_space (last s)"
  shows "trim s = s"
proof -
  from assms(1,2) have "dropWhile is_space s = s" by (cases s) auto
  moreover have "dropWhile is_space (rev s) = rev s"
    using assms(1,3) by (cases "rev s") (auto simp: last_rev [symmetric] simp del: last_rev)
  ultimately show ?thesis by (simp add: trim_def)
qed

lemma parse_body_nonneg:
  assumes "parse_body s = Some (w, n, d)"
  shows "0 \<le> w \<and> 0 \<le> n \<and> 0 \<le> d"
proof -
  have tw: "list_all is_digit (takeWhile is_digit t)" for t
    by (induction t) auto
  from assms show ?thesis
    by (auto simp: parse_body_def Let_def digits_value_nonneg tw
        split: if_splits list.splits)
qed

lemma parse_denominator_positive:
  assumes "parse B s = Inr f"
  shows "0 \<le> wholeNumber f \<and> 0 \<le> numerator f \<and> 0 < denominator f"
proof -
  from assms obtain neg body w n d where pb: "parse_body body = Some (w, n, d)"
    and d: "d \<noteq> 0"
    and f: "f = \<lparr>isNegative = neg, wholeNumber = w, numerator = n, denominator = d\<rparr>"
    by (auto simp: parse_def Let_def split: prod.splits option.splits if_splits)
  from parse_body_nonneg [OF pb] d f show ?thesis by simp
qed


lemma last_digits: "is_digit (last (digits n))"
  using digits_nonempty [of n] digits_all_digit [of n] by (simp add: list_all_iff)

lemma parse_signed:
  assumes body: "body = x # xs" and x: "is_digit x" and l: "is_digit (last body)"
    and pb: "parse_body body = Some (w, n, d)"
    and d: "d \<noteq> 0" and le: "w \<le> B" "n \<le> B" "d \<le> B"
  shows "parse B ((if neg then [minus_sign] else []) @ body) =
    Inr \<lparr>isNegative = neg, wholeNumber = w, numerator = n, denominator = d\<rparr>"
proof -
  let ?s = "(if neg then [minus_sign] else []) @ body"
  have "?s \<noteq> []" using body by simp
  moreover have "\<not> is_space (hd ?s)"
    using body x by (simp add: not_space_minus digit_not_space)
  moreover have "\<not> is_space (last ?s)"
    using body l by (simp add: digit_not_space)
  ultimately have t: "trim ?s = ?s" by (rule trim_id)
  have xm: "x \<noteq> minus_sign" using x not_digit_chars(3) by auto
  show ?thesis
  proof (cases neg)
    case True
    with t pb d le show ?thesis by (simp add: parse_def)
  next
    case False
    with t pb d le body xm show ?thesis by (simp add: parse_def)
  qed
qed

lemma show_int_nonneg: "0 \<le> i \<Longrightarrow> show_int i = digits (nat i)"
  by (simp add: show_int_def)

subsection \<open>Well-formed input in general\<close>

lemma digit_group_ends:
  assumes "ds \<noteq> []" and "list_all is_digit ds"
  shows "\<exists>x xs. ds = x # xs \<and> is_digit x" and "is_digit (last ds)"
  using assms by (cases ds, auto simp: list_all_iff)

lemma dropWhile_spaces_group:
  assumes "ds \<noteq> []" and "list_all is_digit ds"
  shows "dropWhile (\<lambda>x. x = space) (replicate k space @ ds @ r) = ds @ r"
proof -
  obtain x xs where "ds = x # xs" "is_digit x" using digit_group_ends(1) [OF assms] by blast
  moreover from this have "x \<noteq> space" using not_digit_chars(2) by auto
  ultimately show ?thesis by (induction k) simp_all
qed

lemma parse_body_simple_form:
  assumes "ds \<noteq> []" "list_all is_digit ds" "zs \<noteq> []" "list_all is_digit zs"
  shows "parse_body (ds @ slash # zs) = Some (0, digits_value ds, digits_value zs)"
  using assms
  by (simp add: parse_body_def takeWhile_digits_stop dropWhile_digits_stop not_digit_chars)

lemma parse_body_mixed_form:
  assumes "ws \<noteq> []" "list_all is_digit ws" "ds \<noteq> []" "list_all is_digit ds"
    "zs \<noteq> []" "list_all is_digit zs"
  shows "parse_body (ws @ replicate (Suc k) space @ ds @ slash # zs) =
    Some (digits_value ws, digits_value ds, digits_value zs)"
  using assms dropWhile_spaces_group [of ds k "slash # zs"]
  by (simp add: parse_body_def takeWhile_digits_stop dropWhile_digits_stop not_digit_chars
      slash_not_space)

lemma parse_body_no_denominator:
  assumes "ds \<noteq> []" "list_all is_digit ds"
  shows "parse_body (ds @ [slash]) = None"
  using assms
  by (simp add: parse_body_def takeWhile_digits_stop dropWhile_digits_stop not_digit_chars)

lemma trim_spaces:
  assumes "list_all is_space pre" and "list_all is_space post"
    and "t \<noteq> []" and "\<not> is_space (hd t)" and "\<not> is_space (last t)"
  shows "trim (pre @ t @ post) = t"
proof -
  have a: "dropWhile is_space (pre @ t @ post) = t @ post"
    using assms(1,3,4) by (cases t) (simp_all add: dropWhile_spaces)
  have "list_all is_space (rev post)" using assms(2) by (simp add: list_all_iff)
  then have "dropWhile is_space (rev post @ rev t) = dropWhile is_space (rev t)"
    by (rule dropWhile_spaces)
  also have "\<dots> = rev t"
    using assms(3,5) by (cases "rev t") (auto simp: last_rev [symmetric] simp del: last_rev)
  finally show ?thesis by (simp add: trim_def a)
qed

lemma slash_is_not_space: "\<not> is_space slash"
  by (simp add: is_space_def slash_def)

lemma parse_trimmed:
  assumes body: "body = x # xs" and x: "is_digit x" and l: "\<not> is_space (last body)"
    and pre: "list_all is_space pre" and post: "list_all is_space post"
  shows "parse B (pre @ (if neg then [minus_sign] else []) @ body @ post) =
    (case parse_body body of
       None \<Rightarrow> Inl InvalidFormat
     | Some (w, n, d) \<Rightarrow>
         if d = 0 then Inl InvalidDenominator
         else if B < w \<or> B < n \<or> B < d then Inl NumberTooLarge
         else Inr \<lparr>isNegative = neg, wholeNumber = w, numerator = n, denominator = d\<rparr>)"
proof -
  let ?t = "(if neg then [minus_sign] else []) @ body"
  have "?t \<noteq> []" using body by simp
  moreover have "\<not> is_space (hd ?t)"
    using body x by (simp add: not_space_minus digit_not_space)
  moreover have "\<not> is_space (last ?t)" using body l by simp
  ultimately have "trim (pre @ ?t @ post) = ?t" by (intro trim_spaces pre post)
  then have t: "trim (pre @ (if neg then [minus_sign] else []) @ body @ post) = ?t" by simp
  have xm: "x \<noteq> minus_sign" using x not_digit_chars(3) by auto
  show ?thesis
  proof (cases neg)
    case True
    with t show ?thesis by (simp add: parse_def split: option.splits)
  next
    case False
    with t body xm show ?thesis by (simp add: parse_def split: option.splits)
  qed
qed

lemma parse_simple_zero_denominator:
  assumes ds: "ds \<noteq> []" "list_all is_digit ds" and zs: "zs \<noteq> []" "list_all is_digit zs"
    and z: "digits_value zs = 0"
    and sp: "list_all is_space pre" "list_all is_space post"
  shows "parse B (pre @ (if neg then [minus_sign] else []) @ (ds @ slash # zs) @ post) =
    Inl InvalidDenominator"
proof -
  obtain x xs where x: "ds = x # xs" "is_digit x" using digit_group_ends(1) [OF ds] by blast
  have "\<not> is_space (last (ds @ slash # zs))"
    using zs digit_group_ends(2) [OF zs] by (simp add: digit_not_space)
  moreover have "ds @ slash # zs = x # (xs @ slash # zs)" using x by simp
  ultimately show ?thesis
    using parse_trimmed [of "ds @ slash # zs" x "xs @ slash # zs" pre post B neg]
      parse_body_simple_form [OF ds zs] x z sp by simp
qed

lemma parse_mixed_zero_denominator:
  assumes ws: "ws \<noteq> []" "list_all is_digit ws"
    and ds: "ds \<noteq> []" "list_all is_digit ds" and zs: "zs \<noteq> []" "list_all is_digit zs"
    and z: "digits_value zs = 0"
    and sp: "list_all is_space pre" "list_all is_space post"
  shows "parse B (pre @ (if neg then [minus_sign] else []) @
      (ws @ replicate (Suc k) space @ ds @ slash # zs) @ post) = Inl InvalidDenominator"
proof -
  let ?body = "ws @ replicate (Suc k) space @ ds @ slash # zs"
  obtain x xs where x: "ws = x # xs" "is_digit x" using digit_group_ends(1) [OF ws] by blast
  have "\<not> is_space (last ?body)"
    using zs digit_group_ends(2) [OF zs] by (simp add: digit_not_space)
  moreover have "?body = x # (xs @ replicate (Suc k) space @ ds @ slash # zs)"
    using x by simp
  ultimately show ?thesis
    using parse_trimmed [of ?body x "xs @ replicate (Suc k) space @ ds @ slash # zs"
        pre post B neg]
      parse_body_mixed_form [OF ws ds zs, of k] x z sp by simp
qed

lemma parse_no_denominator:
  assumes ds: "ds \<noteq> []" "list_all is_digit ds"
    and sp: "list_all is_space pre" "list_all is_space post"
  shows "parse B (pre @ (if neg then [minus_sign] else []) @ (ds @ [slash]) @ post) =
    Inl InvalidFormat"
proof -
  obtain x xs where x: "ds = x # xs" "is_digit x" using digit_group_ends(1) [OF ds] by blast
  have "\<not> is_space (last (ds @ [slash]))" by (simp add: slash_is_not_space)
  moreover have "ds @ [slash] = x # (xs @ [slash])" using x by simp
  ultimately show ?thesis
    using parse_trimmed [of "ds @ [slash]" x "xs @ [slash]" pre post B neg]
      parse_body_no_denominator [OF ds] x sp by simp
qed

section \<open>The watch listener\<close>

lemma watch_callback_parsed:
  assumes "\<not> regex_test INTERMEDIATE_REGEX s" and "fromRawInputString F s = Inr f"
  shows "watch_callback F s c =
    (Inr (), c\<lparr>ctrl_value := Frac f, errorMessage := [],
                factory_calls := factory_calls c @ [FromRawInputString s]\<rparr>)"
  using assms
  by (simp add: watch_callback_def watch_try_def and_then_def call_fromRawInputString_def)

lemma watch_callback_thrown:
  assumes "\<not> regex_test INTERMEDIATE_REGEX s"
    and "fromRawInputString F s = Inl (ThrownError e)"
  shows "watch_callback F s c =
    (Inr (), c\<lparr>errorMessage := message e,
                factory_calls := factory_calls c @ [FromRawInputString s]\<rparr>)"
  using assms
  by (simp add: watch_callback_def watch_try_def and_then_def call_fromRawInputString_def
      read_message_def)

lemma watch_callback_thrown_null:
  assumes "\<not> regex_test INTERMEDIATE_REGEX s" and "fromRawInputString F s = Inl ThrownNull"
  shows "watch_callback F s c =
    (Inl (cannot_read (js ''null'')),
     c\<lparr>factory_calls := factory_calls c @ [FromRawInputString s]\<rparr>)"
  using assms
  by (simp add: watch_callback_def watch_try_def and_then_def call_fromRawInputString_def
      read_message_def)

lemma watch_callback_thrown_undefined:
  assumes "\<not> regex_test INTERMEDIATE_REGEX s"
    and "fromRawInputString F s = Inl ThrownUndefined"
  shows "watch_callback F s c =
    (Inl (cannot_read (js ''undefined'')),
     c\<lparr>factory_calls := factory_calls c @ [FromRawInputString s]\<rparr>)"
  using assms
  by (simp add: watch_callback_def watch_try_def and_then_def call_fromRawInputString_def
      read_message_def)

lemma watch_callback_value:
  "ctrl_value (snd (watch_callback F s c)) =
     (if regex_test INTERMEDIATE_REGEX s then ctrl_value c
      else case fromRawInputString F s of Inl t \<Rightarrow> ctrl_value c | Inr f \<Rightarrow> Frac f)"
  by (simp add: watch_callback_def watch_try_def and_then_def call_fromRawInputString_def
      read_message_def split: sum.splits js_thrown.splits)

lemma watch_callback_intermediate:
  assumes "regex_test INTERMEDIATE_REGEX s"
  shows "watch_callback F s c = (Inr (), c\<lparr>errorMessage := []\<rparr>)"
  using assms
  by (simp add: watch_callback_def watch_try_def and_then_def)

text \<open>Evaluation of the definitions on concrete strings.\<close>

lemmas char_eval = js_def is_space_def is_digit_def minus_sign_def slash_def space_def

lemmas parse_eval = parse_def parse_body_def trim_def digits_value_def digit_value_def

lemmas show_eval = fraction_toString_def sign_prefix_def show_int_def digits_small
  digits_large digit_char_def

lemmas regex_eval = regex_test_def INTERMEDIATE_REGEX_def Opt_def

lemma one_over_zero_not_intermediate: "\<not> regex_test INTERMEDIATE_REGEX (js ''1/0'')"
  by (simp add: regex_eval char_eval)

lemma one_half_not_intermediate: "\<not> regex_test INTERMEDIATE_REGEX (js ''1/2'')"
  by (simp add: regex_eval char_eval)

lemma lone_minus_intermediate: "regex_test INTERMEDIATE_REGEX (js ''-'')"
  by (simp add: regex_eval char_eval)

lemma spec_factory_one_over_zero:
  "fromRawInputString (spec_factory B) (js ''1/0'') =
     Inl (ThrownError (Error (js ''InvalidDenominator'')))"
  by (simp add: spec_factory_def parse_eval char_eval)

lemma spec_factory_one_half:
  "fromRawInputString (spec_factory MAX_SAFE_INTEGER) (js ''1/2'') =
     Inr \<lparr>isNegative = False, wholeNumber = 0, numerator = 1, denominator = 2\<rparr>"
  by (simp add: spec_factory_def parse_eval char_eval MAX_SAFE_INTEGER_def)

section \<open>Claims about the directive\<close>

text \<open>
  C1, as amended. The claim reads: on every input that matches \<open>^\s*-?\s*$\<close> the watch
  listener leaves the stored error message unchanged. The listener assigns
  \<open>errorMessage = ''\<close> after the \<open>if\<close>, whether or not the parser ran, so a message left
  by an earlier failed parse is cleared: after \<open>1/0\<close> has stored its message, the input
  \<open>-\<close> empties it.
\<close>

theorem intermediate_input_keeps_error_counterexample:
  "regex_test INTERMEDIATE_REGEX (js ''-'') \<and>
   errorMessage (snd (watch_callback (spec_factory MAX_SAFE_INTEGER) (js ''1/0'')
     (controller (spec_factory MAX_SAFE_INTEGER) None))) = js ''InvalidDenominator'' \<and>
   errorMessage (snd (watch_callback (spec_factory MAX_SAFE_INTEGER) (js ''-'')
     (snd (watch_callback (spec_factory MAX_SAFE_INTEGER) (js ''1/0'')
       (controller (spec_factory MAX_SAFE_INTEGER) None))))) = [] \<and>
   errorMessage (snd (watch_callback (spec_factory MAX_SAFE_INTEGER) (js ''-'')
     (snd (watch_callback (spec_factory MAX_SAFE_INTEGER) (js ''1/0'')
       (controller (spec_factory MAX_SAFE_INTEGER) None))))) \<noteq>
   errorMessage (snd (watch_callback (spec_factory MAX_SAFE_INTEGER) (js ''1/0'')
     (controller (spec_factory MAX_SAFE_INTEGER) None)))"
proof -
  have "js ''InvalidDenominator'' \<noteq> []" by (simp add: js_def)
  then show ?thesis
    by (simp add: lone_minus_intermediate watch_callback_intermediate
        watch_callback_thrown [OF one_over_zero_not_intermediate spec_factory_one_over_zero])
qed

text \<open>
  C1: on every input that matches \<open>^\s*-?\s*$\<close> the watch listener calls no operation of
  the factory, leaves \<open>ctrl.value\<close> and the label as they are and sets the error message
  to the empty string. Intermediate input never produces an error message, and it
  clears the one that was there.
\<close>

theorem intermediate_input_clears_error:
  assumes "regex_test INTERMEDIATE_REGEX s"
  shows "snd (watch_callback F s c) = c\<lparr>errorMessage := []\<rparr>"
  using assms by (simp add: watch_callback_intermediate)

theorem intermediate_input_clears_error_witness:
  "regex_test INTERMEDIATE_REGEX (js ''-'') \<and>
   snd (watch_callback (spec_factory MAX_SAFE_INTEGER) (js ''-'')
     \<lparr>ctrl_value = Null, localValue_label = js ''-'',
      errorMessage = js ''InvalidDenominator'', factory_calls = [FromRawInputString (js ''1/0'')]\<rparr>) =
     \<lparr>ctrl_value = Null, localValue_label = js ''-'',
      errorMessage = [], factory_calls = [FromRawInputString (js ''1/0'')]\<rparr>"
  using intermediate_input_clears_error [OF lone_minus_intermediate,
      of "spec_factory MAX_SAFE_INTEGER"
         "\<lparr>ctrl_value = Null, localValue_label = js ''-'',
           errorMessage = js ''InvalidDenominator'',
           factory_calls = [FromRawInputString (js ''1/0'')]\<rparr>"]
    lone_minus_intermediate
  by simp

text \<open>
  C2: the watch listener calls \<open>fromRawInputString\<close> on its input exactly when the input is
  not intermediate, and then once. The expression \<open>/^\s*-?\s*$/\<close> accepts exactly the
  strings the spec describes: whitespace, then at most one \<open>-\<close>, then whitespace.
\<close>

theorem parser_invoked_iff_not_intermediate:
  "regex_test INTERMEDIATE_REGEX s = intermediate_input s \<and>
   factory_calls (snd (watch_callback F s c)) =
     factory_calls c @ (if intermediate_input s then [] else [FromRawInputString s])"
proof (cases "regex_test INTERMEDIATE_REGEX s")
  case True
  then show ?thesis
    by (simp add: watch_callback_intermediate flip: regex_test_INTERMEDIATE_REGEX)
next
  case False
  show ?thesis
  proof (cases "fromRawInputString F s")
    case (Inr f)
    with False show ?thesis
      by (simp add: watch_callback_parsed flip: regex_test_INTERMEDIATE_REGEX)
  next
    case (Inl t)
    with False show ?thesis
      by (cases t)
        (simp_all add: watch_callback_thrown watch_callback_thrown_null
          watch_callback_thrown_undefined flip: regex_test_INTERMEDIATE_REGEX)
  qed
qed

theorem parser_invoked_iff_not_intermediate_witness:
  "\<not> intermediate_input (js ''1/2'') \<and> intermediate_input (js '' - '') \<and>
   factory_calls (snd (watch_callback (spec_factory MAX_SAFE_INTEGER) (js ''1/2'')
     (controller (spec_factory MAX_SAFE_INTEGER) None))) = [FromRawInputString (js ''1/2'')] \<and>
   factory_calls (snd (watch_callback (spec_factory MAX_SAFE_INTEGER) (js '' - '')
     (controller (spec_factory MAX_SAFE_INTEGER) None))) = []"
proof -
  have a: "\<not> intermediate_input (js ''1/2'')" and b: "intermediate_input (js '' - '')"
    by (simp_all add: intermediate_input_def char_eval)
  have c: "factory_calls (controller (spec_factory MAX_SAFE_INTEGER) None) = []"
    by (simp add: controller_def)
  from a b c
    parser_invoked_iff_not_intermediate [of "js ''1/2''" "spec_factory MAX_SAFE_INTEGER"
      "controller (spec_factory MAX_SAFE_INTEGER) None"]
    parser_invoked_iff_not_intermediate [of "js '' - ''" "spec_factory MAX_SAFE_INTEGER"
      "controller (spec_factory MAX_SAFE_INTEGER) None"]
  show ?thesis by simp
qed

text \<open>
  C3: when the input is not intermediate and \<open>fromRawInputString\<close> throws, the watch
  listener leaves \<open>ctrl.value\<close> and the label as they were and stores the message of the
  exception; no other value is written.
\<close>

theorem failed_parse_keeps_value:
  assumes "\<not> regex_test INTERMEDIATE_REGEX s"
    and "fromRawInputString F s = Inl (ThrownError e)"
  shows "ctrl_value (snd (watch_callback F s c)) = ctrl_value c \<and>
         localValue_label (snd (watch_callback F s c)) = localValue_label c \<and>
         errorMessage (snd (watch_callback F s c)) = message e"
  using assms by (simp add: watch_callback_thrown)

theorem failed_parse_keeps_value_witness:
  "\<not> regex_test INTERMEDIATE_REGEX (js ''1/0'') \<and>
   fromRawInputString (spec_factory MAX_SAFE_INTEGER) (js ''1/0'') =
     Inl (ThrownError (Error (js ''InvalidDenominator''))) \<and>
   ctrl_value (snd (watch_callback (spec_factory MAX_SAFE_INTEGER) (js ''1/0'')
     \<lparr>ctrl_value = Frac \<lparr>isNegative = False, wholeNumber = 0, numerator = 1, denominator = 2\<rparr>,
      localValue_label = js ''1/0'', errorMessage = [], factory_calls = []\<rparr>)) =
     Frac \<lparr>isNegative = False, wholeNumber = 0, numerator = 1, denominator = 2\<rparr> \<and>
   errorMessage (snd (watch_callback (spec_factory MAX_SAFE_INTEGER) (js ''1/0'')
     \<lparr>ctrl_value = Frac \<lparr>isNegative = False, wholeNumber = 0, numerator = 1, denominator = 2\<rparr>,
      localValue_label = js ''1/0'', errorMessage = [], factory_calls = []\<rparr>)) =
     js ''InvalidDenominator''"
  using failed_parse_keeps_value [OF one_over_zero_not_intermediate spec_factory_one_over_zero,
      of MAX_SAFE_INTEGER
         "\<lparr>ctrl_value = Frac \<lparr>isNegative = False, wholeNumber = 0, numerator = 1,
             denominator = 2\<rparr>,
           localValue_label = js ''1/0'', errorMessage = [], factory_calls = []\<rparr>"]
    one_over_zero_not_intermediate spec_factory_one_over_zero [of MAX_SAFE_INTEGER]
  by simp

text \<open>
  C4: when the input is not intermediate and \<open>fromRawInputString\<close> returns a Fraction, the
  watch listener stores that Fraction in \<open>ctrl.value\<close>, whatever was there before, and
  resets the error message to the empty string.
\<close>

theorem successful_parse_sets_value:
  assumes "\<not> regex_test INTERMEDIATE_REGEX s" and "fromRawInputString F s = Inr f"
  shows "ctrl_value (snd (watch_callback F s c)) = Frac f \<and>
         errorMessage (snd (watch_callback F s c)) = []"
  using assms by (simp add: watch_callback_parsed)

theorem successful_parse_sets_value_witness:
  "\<not> regex_test INTERMEDIATE_REGEX (js ''1/2'') \<and>
   ctrl_value (snd (watch_callback (spec_factory MAX_SAFE_INTEGER) (js ''1/2'')
     \<lparr>ctrl_value = Frac \<lparr>isNegative = True, wholeNumber = 3, numerator = 0, denominator = 1\<rparr>,
      localValue_label = js ''1/2'', errorMessage = js ''InvalidFormat'',
      factory_calls = []\<rparr>)) =
     Frac \<lparr>isNegative = False, wholeNumber = 0, numerator = 1, denominator = 2\<rparr> \<and>
   errorMessage (snd (watch_callback (spec_factory MAX_SAFE_INTEGER) (js ''1/2'')
     \<lparr>ctrl_value = Frac \<lparr>isNegative = True, wholeNumber = 3, numerator = 0, denominator = 1\<rparr>,
      localValue_label = js ''1/2'', errorMessage = js ''InvalidFormat'',
      factory_calls = []\<rparr>)) = []"
  using successful_parse_sets_value [OF one_half_not_intermediate spec_factory_one_half,
      of "\<lparr>ctrl_value = Frac \<lparr>isNegative = True, wholeNumber = 3, numerator = 0,
             denominator = 1\<rparr>,
           localValue_label = js ''1/2'', errorMessage = js ''InvalidFormat'',
           factory_calls = []\<rparr>"]
    one_half_not_intermediate
  by simp

text \<open>
  C5: after the watch listener has processed an input that is not intermediate and on
  which \<open>fromRawInputString\<close> throws, \<open>getWarningText()\<close> returns the message of the
  exception, unchanged.
\<close>

theorem warning_text_is_message:
  assumes "\<not> regex_test INTERMEDIATE_REGEX s"
    and "fromRawInputString F s = Inl (ThrownError e)"
  shows "getWarningText (snd (watch_callback F s c)) = message e"
  using assms by (simp add: getWarningText_def watch_callback_thrown)

theorem warning_text_is_message_witness:
  "getWarningText (snd (watch_callback (spec_factory MAX_SAFE_INTEGER) (js ''1/0'')
     (controller (spec_factory MAX_SAFE_INTEGER) None))) = js ''InvalidDenominator''"
  using warning_text_is_message [OF one_over_zero_not_intermediate spec_factory_one_over_zero,
      of MAX_SAFE_INTEGER "controller (spec_factory MAX_SAFE_INTEGER) None"]
  by simp




text \<open>
  C10: a controller constructed on \<open>null\<close> calls no operation of the factory, shows the
  label \<open>0\<close> and has the empty error message; constructed on a value that is not
  \<open>null\<close>, it calls \<open>fromDict\<close> once and shows the string of the Fraction returned.
\<close>

theorem controller_initial_state:
  "factory_calls (controller F None) = [] \<and>
   localValue_label (controller F None) = js ''0'' \<and>
   errorMessage (controller F None) = [] \<and>
   factory_calls (controller F (Some d)) = [FromDict d] \<and>
   localValue_label (controller F (Some d)) = toString F (fromDict F d) \<and>
   errorMessage (controller F (Some d)) = []"
  by (simp add: controller_def call_fromDict_def)

theorem controller_initial_state_witness:
  "localValue_label (controller (spec_factory MAX_SAFE_INTEGER)
     (Some \<lparr>dict_isNegative = Some True, dict_wholeNumber = Some 3, dict_numerator = Some 1,
            dict_denominator = Some 2\<rparr>)) = js ''-3 1/2'' \<and>
   localValue_label (controller (spec_factory MAX_SAFE_INTEGER) None) = js ''0''"
  using controller_initial_state [of "spec_factory MAX_SAFE_INTEGER"
      "\<lparr>dict_isNegative = Some True, dict_wholeNumber = Some 3, dict_numerator = Some 1,
        dict_denominator = Some 2\<rparr>"]
  by (simp add: spec_factory_def fromStructured_def show_eval char_eval)

section \<open>Claims about the fraction value object\<close>

text \<open>
  C6, as amended. The claim reads: for every valid Fraction with a non-zero numerator and a
  positive denominator, parsing its string gives the Fraction back. The parser rejects
  every integer above its safe-range boundary, and \<open>fromStructured\<close> accepts such a
  field: with the 53-bit boundary, the valid Fraction of numerator \<open>2 ^ 53\<close> over 1
  renders as \<open>9007199254740992/1\<close>, which fails to parse with NumberTooLarge.
\<close>

theorem parse_toString_counterexample:
  "valid_fraction \<lparr>isNegative = False, wholeNumber = 0, numerator = 9007199254740992,
      denominator = 1\<rparr> \<and>
   fraction_toString \<lparr>isNegative = False, wholeNumber = 0, numerator = 9007199254740992,
      denominator = 1\<rparr> = js ''9007199254740992/1'' \<and>
   parse MAX_SAFE_INTEGER (fraction_toString \<lparr>isNegative = False, wholeNumber = 0,
      numerator = 9007199254740992, denominator = 1\<rparr>) = Inl NumberTooLarge"
  by (simp add: valid_fraction_def show_eval parse_eval char_eval MAX_SAFE_INTEGER_def)

text \<open>
  C6: round trip. For every valid Fraction (fields not negative, denominator positive)
  whose numerator is not zero and whose whole number, numerator and denominator do not
  exceed the parser's safe-range boundary, parsing its string succeeds and gives the
  Fraction back, field by field.
\<close>

theorem parse_toString_roundtrip:
  assumes v: "valid_fraction f" and nz: "numerator f \<noteq> 0"
    and le: "wholeNumber f \<le> B" "numerator f \<le> B" "denominator f \<le> B"
  shows "parse B (fraction_toString f) = Inr f"
proof -
  define w n d where "w = nat (wholeNumber f)" and "n = nat (numerator f)"
    and "d = nat (denominator f)"
  from v have iw: "int w = wholeNumber f" and "int n = numerator f" and "int d = denominator f"
    and dz: "denominator f \<noteq> 0"
    by (simp_all add: valid_fraction_def w_def n_def d_def)
  note ints = this(1-3)
  have sh: "show_int (wholeNumber f) = digits w" "show_int (numerator f) = digits n"
    "show_int (denominator f) = digits d"
    using v by (simp_all add: valid_fraction_def show_int_nonneg w_def n_def d_def)
  have f: "f = \<lparr>isNegative = isNegative f, wholeNumber = wholeNumber f,
    numerator = numerator f, denominator = denominator f\<rparr>" by simp
  show ?thesis
  proof (cases "wholeNumber f = 0")
    case True
    let ?body = "digits n @ slash # digits d"
    obtain x xs where xs: "digits n = x # xs" "is_digit x" using digits_Cons by blast
    have "parse B ((if isNegative f then [minus_sign] else []) @ ?body) =
      Inr \<lparr>isNegative = isNegative f, wholeNumber = 0, numerator = int n, denominator = int d\<rparr>"
    proof (rule parse_signed)
      show "?body = x # (xs @ slash # digits d)" using xs by simp
      show "is_digit x" by (rule xs)
      show "is_digit (last ?body)" using digits_nonempty by (simp add: last_digits)
      show "parse_body ?body = Some (0, int n, int d)" by (rule parse_body_simple)
      show "int d \<noteq> 0" using dz ints by simp
      show "0 \<le> B" using le True by simp
      show "int n \<le> B" "int d \<le> B" using le ints by simp_all
    qed
    moreover have "fraction_toString f = (if isNegative f then [minus_sign] else []) @ ?body"
      using nz True by (simp add: fraction_toString_def sign_prefix_def sh)
    ultimately show ?thesis using True ints by simp
  next
    case False
    let ?body = "digits w @ space # digits n @ slash # digits d"
    obtain x xs where xs: "digits w = x # xs" "is_digit x" using digits_Cons by blast
    have "parse B ((if isNegative f then [minus_sign] else []) @ ?body) =
      Inr \<lparr>isNegative = isNegative f, wholeNumber = int w, numerator = int n,
        denominator = int d\<rparr>"
    proof (rule parse_signed)
      show "?body = x # (xs @ space # digits n @ slash # digits d)" using xs by simp
      show "is_digit x" by (rule xs)
      show "is_digit (last ?body)" using digits_nonempty by (simp add: last_digits)
      show "parse_body ?body = Some (int w, int n, int d)" by (rule parse_body_mixed)
      show "int d \<noteq> 0" using dz ints by simp
      show "int w \<le> B" "int n \<le> B" "int d \<le> B" using le ints by simp_all
    qed
    moreover have "fraction_toString f = (if isNegative f then [minus_sign] else []) @ ?body"
      using nz False by (simp add: fraction_toString_def sign_prefix_def sh)
    ultimately show ?thesis using ints by simp
  qed
qed

theorem parse_toString_roundtrip_witness:
  "valid_fraction \<lparr>isNegative = True, wholeNumber = 3, numerator = 10, denominator = 24\<rparr> \<and>
   fraction_toString \<lparr>isNegative = True, wholeNumber = 3, numerator = 10, denominator = 24\<rparr> =
     js ''-3 10/24'' \<and>
   parse MAX_SAFE_INTEGER (js ''-3 10/24'') =
     Inr \<lparr>isNegative = True, wholeNumber = 3, numerator = 10, denominator = 24\<rparr>"
proof -
  let ?f = "\<lparr>isNegative = True, wholeNumber = 3, numerator = 10, denominator = 24\<rparr>"
  have v: "valid_fraction ?f" by (simp add: valid_fraction_def)
  have s: "fraction_toString ?f = js ''-3 10/24''" by (simp add: show_eval char_eval)
  have "parse MAX_SAFE_INTEGER (fraction_toString ?f) = Inr ?f"
    by (rule parse_toString_roundtrip [OF v]) (simp_all add: MAX_SAFE_INTEGER_def)
  with v s show ?thesis by simp
qed

text \<open>
  C7: \<open>parse("1/0")\<close> fails with InvalidDenominator, whatever the safe-range boundary. In
  general, an input of the form \<open>digits "/" digits\<close>, alone or after a whole number, signed
  or not and with whitespace around it, whose denominator digits denote 0 fails with
  InvalidDenominator: it is neither InvalidFormat nor a Fraction.
\<close>

theorem parse_zero_denominator:
  "parse B (js ''1/0'') = Inl InvalidDenominator \<and>
   (ds \<noteq> [] \<and> list_all is_digit ds \<and> zs \<noteq> [] \<and> list_all is_digit zs \<and>
    digits_value zs = 0 \<and> list_all is_space pre \<and> list_all is_space post \<longrightarrow>
      parse B (pre @ (if neg then [minus_sign] else []) @ (ds @ slash # zs) @ post) =
        Inl InvalidDenominator \<and>
      (ws \<noteq> [] \<and> list_all is_digit ws \<longrightarrow>
         parse B (pre @ (if neg then [minus_sign] else []) @
           (ws @ replicate (Suc k) space @ ds @ slash # zs) @ post) = Inl InvalidDenominator))"
proof (intro conjI impI)
  show "parse B (js ''1/0'') = Inl InvalidDenominator"
    by (simp add: parse_eval char_eval)
next
  assume h: "ds \<noteq> [] \<and> list_all is_digit ds \<and> zs \<noteq> [] \<and> list_all is_digit zs \<and>
    digits_value zs = 0 \<and> list_all is_space pre \<and> list_all is_space post"
  then show "parse B (pre @ (if neg then [minus_sign] else []) @ (ds @ slash # zs) @ post) =
      Inl InvalidDenominator"
    by (intro parse_simple_zero_denominator) simp_all
  assume "ws \<noteq> [] \<and> list_all is_digit ws"
  with h show "parse B (pre @ (if neg then [minus_sign] else []) @
      (ws @ replicate (Suc k) space @ ds @ slash # zs) @ post) = Inl InvalidDenominator"
    by (intro parse_mixed_zero_denominator) simp_all
qed

theorem parse_zero_denominator_witness:
  "parse MAX_SAFE_INTEGER (js '' -12/00'') = Inl InvalidDenominator \<and>
   parse MAX_SAFE_INTEGER (js '' -3  12/00'') = Inl InvalidDenominator"
  using parse_zero_denominator [of MAX_SAFE_INTEGER "js ''12''" "js ''00''" "js '' ''" "[]"
      True "js ''3''" 1]
  by (simp add: char_eval digits_value_def digit_value_def)

text \<open>
  C8, as amended. The claim reads: every Fraction constructed, by \<open>fromStructured\<close> too, or
  held in \<open>ctrl.value\<close> has a strictly positive denominator. Nothing validates a record:
  \<open>fromStructured\<close> returns a Fraction of denominator 0 for a record of denominator 0, and
  the controller's constructor leaves that record in \<open>ctrl.value\<close> as the parent bound it.
\<close>

theorem fromStructured_denominator_counterexample:
  "\<not> 0 < denominator (fromStructured \<lparr>dict_isNegative = None, dict_wholeNumber = None,
      dict_numerator = Some 1, dict_denominator = Some 0\<rparr>) \<and>
   ctrl_value (controller (spec_factory MAX_SAFE_INTEGER)
      (Some \<lparr>dict_isNegative = None, dict_wholeNumber = None, dict_numerator = Some 1,
             dict_denominator = Some 0\<rparr>)) =
     Dict \<lparr>dict_isNegative = None, dict_wholeNumber = None, dict_numerator = Some 1,
           dict_denominator = Some 0\<rparr> \<and>
   \<not> positive_denominator (ctrl_value (controller (spec_factory MAX_SAFE_INTEGER)
      (Some \<lparr>dict_isNegative = None, dict_wholeNumber = None, dict_numerator = Some 1,
             dict_denominator = Some 0\<rparr>)))"
  by (simp add: fromStructured_def controller_def call_fromDict_def positive_denominator_def)

text \<open>
  C8: every Fraction that \<open>parse\<close> returns has a strictly positive denominator; a simple
  fraction whose denominator digits denote 0 is the error InvalidDenominator, and one
  with no denominator digits is the error InvalidFormat. The watch listener leaves
  \<open>ctrl.value\<close> as it was or sets it to the Fraction the parser returned on its input, and
  to nothing else; so when \<open>ctrl.value\<close>, plain object or Fraction, has a strictly positive
  denominator before the listener runs, it has one after. Records are not validated:
  \<open>fromStructured\<close> returns the denominator of its record as it is, 1 when the record has
  none, and the constructor keeps in \<open>ctrl.value\<close> the value the parent bound.
\<close>

theorem parsed_denominator_positive:
  "(parse B s = Inr f \<longrightarrow> 0 < denominator f) \<and>
   (ds \<noteq> [] \<and> list_all is_digit ds \<and> zs \<noteq> [] \<and> list_all is_digit zs \<and>
    digits_value zs = 0 \<longrightarrow>
      parse B ((if neg then [minus_sign] else []) @ ds @ slash # zs) = Inl InvalidDenominator \<and>
      parse B ((if neg then [minus_sign] else []) @ ds @ [slash]) = Inl InvalidFormat) \<and>
   ctrl_value (snd (watch_callback F s c)) =
     (if regex_test INTERMEDIATE_REGEX s then ctrl_value c
      else case fromRawInputString F s of Inl t \<Rightarrow> ctrl_value c | Inr g \<Rightarrow> Frac g) \<and>
   (positive_denominator (ctrl_value c) \<longrightarrow>
      positive_denominator (ctrl_value (snd (watch_callback (spec_factory B) s c)))) \<and>
   denominator (fromStructured d) = (case dict_denominator d of None \<Rightarrow> 1 | Some k \<Rightarrow> k) \<and>
   ctrl_value (controller F v) = (case v of None \<Rightarrow> Null | Some d' \<Rightarrow> Dict d')"
proof (intro conjI impI)
  assume "parse B s = Inr f"
  then show "0 < denominator f" by (simp add: parse_denominator_positive)
next
  assume h: "ds \<noteq> [] \<and> list_all is_digit ds \<and> zs \<noteq> [] \<and> list_all is_digit zs \<and>
    digits_value zs = 0"
  then show "parse B ((if neg then [minus_sign] else []) @ ds @ slash # zs) =
      Inl InvalidDenominator"
    using parse_simple_zero_denominator [of ds zs "[]" "[]" B neg] by simp
  from h show "parse B ((if neg then [minus_sign] else []) @ ds @ [slash]) = Inl InvalidFormat"
    using parse_no_denominator [of ds "[]" "[]" B neg] by simp
next
  show "ctrl_value (snd (watch_callback F s c)) =
     (if regex_test INTERMEDIATE_REGEX s then ctrl_value c
      else case fromRawInputString F s of Inl t \<Rightarrow> ctrl_value c | Inr g \<Rightarrow> Frac g)"
    by (rule watch_callback_value)
next
  assume c: "positive_denominator (ctrl_value c)"
  show "positive_denominator (ctrl_value (snd (watch_callback (spec_factory B) s c)))"
  proof (cases "parse B s")
    case (Inl k)
    with c show ?thesis by (simp add: watch_callback_value spec_factory_def)
  next
    case (Inr g)
    with c parse_denominator_positive [OF Inr] show ?thesis
      by (simp add: watch_callback_value spec_factory_def positive_denominator_def)
  qed
next
  show "denominator (fromStructured d) = (case dict_denominator d of None \<Rightarrow> 1 | Some k \<Rightarrow> k)"
    by (simp add: fromStructured_def)
next
  show "ctrl_value (controller F v) = (case v of None \<Rightarrow> Null | Some d' \<Rightarrow> Dict d')"
    by (simp add: controller_def call_fromDict_def split: option.splits)
qed

theorem parsed_denominator_positive_witness:
  "parse MAX_SAFE_INTEGER (js ''1/2'') =
     Inr \<lparr>isNegative = False, wholeNumber = 0, numerator = 1, denominator = 2\<rparr> \<and>
   0 < denominator \<lparr>isNegative = False, wholeNumber = 0, numerator = 1, denominator = 2\<rparr> \<and>
   parse MAX_SAFE_INTEGER (js ''-3/0'') = Inl InvalidDenominator \<and>
   parse MAX_SAFE_INTEGER (js ''-3/'') = Inl InvalidFormat \<and>
   positive_denominator (ctrl_value (controller (spec_factory MAX_SAFE_INTEGER)
     (Some \<lparr>dict_isNegative = None, dict_wholeNumber = None, dict_numerator = Some 3,
            dict_denominator = Some 4\<rparr>))) \<and>
   ctrl_value (snd (watch_callback (spec_factory MAX_SAFE_INTEGER) (js ''1/2'')
     (controller (spec_factory MAX_SAFE_INTEGER)
       (Some \<lparr>dict_isNegative = None, dict_wholeNumber = None, dict_numerator = Some 3,
              dict_denominator = Some 4\<rparr>)))) =
     Frac \<lparr>isNegative = False, wholeNumber = 0, numerator = 1, denominator = 2\<rparr> \<and>
   positive_denominator (ctrl_value (snd (watch_callback (spec_factory MAX_SAFE_INTEGER)
     (js ''1/2'')
     (controller (spec_factory MAX_SAFE_INTEGER)
       (Some \<lparr>dict_isNegative = None, dict_wholeNumber = None, dict_numerator = Some 3,
              dict_denominator = Some 4\<rparr>)))))"
proof -
  let ?f = "\<lparr>isNegative = False, wholeNumber = 0, numerator = 1, denominator = 2\<rparr>"
  let ?d = "\<lparr>dict_isNegative = None, dict_wholeNumber = None, dict_numerator = Some 3,
    dict_denominator = Some 4\<rparr>"
  let ?F = "spec_factory MAX_SAFE_INTEGER"
  let ?c = "controller ?F (Some ?d)"
  have p: "parse MAX_SAFE_INTEGER (js ''1/2'') = Inr ?f"
    by (simp add: parse_eval char_eval MAX_SAFE_INTEGER_def)
  have c: "positive_denominator (ctrl_value ?c)"
    by (simp add: controller_def call_fromDict_def positive_denominator_def)
  have g: "js ''3'' \<noteq> [] \<and> list_all is_digit (js ''3'') \<and> js ''0'' \<noteq> [] \<and>
      list_all is_digit (js ''0'') \<and> digits_value (js ''0'') = 0"
    by (simp add: char_eval digits_value_def digit_value_def)
  have s: "js ''-3/0'' = [minus_sign] @ js ''3'' @ slash # js ''0''"
    "js ''-3/'' = [minus_sign] @ js ''3'' @ [slash]"
    by (simp_all add: char_eval)
  have q: "fromRawInputString ?F (js ''1/2'') = Inr ?f"
    by (rule spec_factory_one_half)
  note T = parsed_denominator_positive [of MAX_SAFE_INTEGER "js ''1/2''" ?f "js ''3''"
      "js ''0''" True ?F ?c ?d "Some ?d"]
  from T p have "0 < denominator ?f" by blast
  moreover from T g have "parse MAX_SAFE_INTEGER (js ''-3/0'') = Inl InvalidDenominator"
    and "parse MAX_SAFE_INTEGER (js ''-3/'') = Inl InvalidFormat"
    unfolding s by simp_all
  moreover from T q have "ctrl_value (snd (watch_callback ?F (js ''1/2'') ?c)) = Frac ?f"
    by (simp add: one_half_not_intermediate)
  moreover from T c
  have "positive_denominator (ctrl_value (snd (watch_callback ?F (js ''1/2'') ?c)))"
    by blast
  ultimately show ?thesis using p c by blast
qed

end
